theory Spec2Isabelle
  imports Complex_Main "HOL-Library.AList"
begin

section \<open>Vacancy statistics: the aggregation core\<close>

text \<open>
  A shallow embedding of the statistics pipeline of \<^verbatim>\<open>Daniil-Obukhov-at-36-3.2.3.py\<close>:
  the classes \<^verbatim>\<open>Salary\<close>, \<^verbatim>\<open>Vacancy\<close>, \<^verbatim>\<open>DataSet\<close>, \<^verbatim>\<open>YearSalary\<close> and \<^verbatim>\<open>Statistic\<close>, and the
  merge loop of the main block.

  Conventions.
  \<^item> A Python \<^verbatim>\<open>str\<close> is a \<open>string\<close>; one \<open>char\<close> stands for one code point below 256.
  \<^item> A Python \<^verbatim>\<open>float\<close> is a rational number: the arithmetic is exact, so binary rounding,
    infinities and NaN are outside the model.
  \<^item> A Python \<^verbatim>\<open>dict\<close> is an association list with distinct keys, in insertion order.
  \<^item> An exception is the left summand of a result of type \<open>error + 'a\<close>.
\<close>

subsection \<open>Errors, dictionaries, lists\<close>

datatype error = KeyError | ValueError | IndexError

text \<open>Sequencing: the first exception raised is the one that propagates.\<close>

definition and_then :: "error + 'a \<Rightarrow> ('a \<Rightarrow> error + 'b) \<Rightarrow> error + 'b" where
  "and_then m f = (case m of Inl e \<Rightarrow> Inl e | Inr x \<Rightarrow> f x)"

definition or_raise :: "error \<Rightarrow> 'a option \<Rightarrow> error + 'a" where
  "or_raise e m = (case m of None \<Rightarrow> Inl e | Some x \<Rightarrow> Inr x)"

type_synonym ('k, 'v) dict = "('k \<times> 'v) list"

text \<open>\<^verbatim>\<open>d[k] = v\<close>: an existing key keeps its position, a new key goes to the end.\<close>

definition dict_set :: "('k, 'v) dict \<Rightarrow> 'k \<Rightarrow> 'v \<Rightarrow> ('k, 'v) dict" where
  "dict_set d k v = AList.update k v d"

text \<open>\<^verbatim>\<open>d[k]\<close>, which raises \<^verbatim>\<open>KeyError\<close> on a missing key.\<close>

definition dict_get :: "('k, 'v) dict \<Rightarrow> 'k \<Rightarrow> error + 'v" where
  "dict_get d k = or_raise KeyError (map_of d k)"

definition keys :: "('k, 'v) dict \<Rightarrow> 'k list" where
  "keys d = map fst d"

text \<open>\<^verbatim>\<open>d.update(e)\<close>: the items of \<open>e\<close> are stored into \<open>d\<close> one by one, in the order of \<open>e\<close>.\<close>

definition dict_update :: "('k, 'v) dict \<Rightarrow> ('k, 'v) dict \<Rightarrow> ('k, 'v) dict" where
  "dict_update d e = foldl (\<lambda>acc (k, v). dict_set acc k v) d e"

text \<open>The comprehension \<^verbatim>\<open>{x: y for x, y in pairs}\<close>.\<close>

definition dict_of_pairs :: "('k \<times> 'v) list \<Rightarrow> ('k, 'v) dict" where
  "dict_of_pairs ps = dict_update [] ps"

text \<open>
  \<^verbatim>\<open>xs.insert(i, x)\<close>: a negative index counts from the end, and the index is then
  clamped to the range from 0 to the length.
\<close>

definition list_insert :: "'a list \<Rightarrow> int \<Rightarrow> 'a \<Rightarrow> 'a list" where
  "list_insert xs i x =
     (let n = int (length xs);
          j = (if i < 0 then max 0 (n + i) else min i n)
      in take (nat j) xs @ x # drop (nat j) xs)"

text \<open>
  The position that \<^verbatim>\<open>xs[i]\<close> denotes in a list of length \<open>n\<close>: a negative index counts
  from the end; outside the list it is an \<^verbatim>\<open>IndexError\<close>.
\<close>

definition list_index :: "nat \<Rightarrow> int \<Rightarrow> error + nat" where
  "list_index n i =
     (let j = (if i < 0 then int n + i else i)
      in if 0 \<le> j \<and> j < int n then Inr (nat j) else Inl IndexError)"

subsection \<open>Strings\<close>

text \<open>The characters that \<^verbatim>\<open>str.split()\<close> and \<^verbatim>\<open>str.strip()\<close> treat as whitespace.\<close>

definition is_space :: "char \<Rightarrow> bool" where
  "is_space c \<longleftrightarrow> c \<in> set [CHR 0x09, CHR 0x0A, CHR 0x0B, CHR 0x0C, CHR 0x0D,
     CHR 0x1C, CHR 0x1D, CHR 0x1E, CHR 0x1F, CHR 0x20, CHR 0x85, CHR 0xA0]"

definition is_digit :: "char \<Rightarrow> bool" where
  "is_digit c \<longleftrightarrow> 48 \<le> (of_char c :: nat) \<and> (of_char c :: nat) \<le> 57"

definition digit_val :: "char \<Rightarrow> int" where
  "digit_val c = int (of_char c) - 48"

text \<open>
  The characters that \<^verbatim>\<open>int()\<close> skips around a literal: the whitespace of ASCII and the
  spaces beyond it. The separators \<open>0x1C\<close> to \<open>0x1F\<close> are not among them.
\<close>

definition is_int_space :: "char \<Rightarrow> bool" where
  "is_int_space c \<longleftrightarrow> c \<in> set [CHR 0x09, CHR 0x0A, CHR 0x0B, CHR 0x0C, CHR 0x0D,
     CHR 0x20, CHR 0x85, CHR 0xA0]"

text \<open>\<^verbatim>\<open>s.strip()\<close>.\<close>

definition strip :: "string \<Rightarrow> string" where
  "strip s = rev (dropWhile is_space (rev (dropWhile is_space s)))"

text \<open>
  The digits of a decimal literal, with single underscores allowed between digits;
  \<open>None\<close> where \<^verbatim>\<open>int()\<close> raises \<^verbatim>\<open>ValueError\<close>.
\<close>

fun parse_digits :: "int \<Rightarrow> string \<Rightarrow> int option" where
  "parse_digits acc [] = None"
| "parse_digits acc [c] = (if is_digit c then Some (acc * 10 + digit_val c) else None)"
| "parse_digits acc (c # d # ds) =
     (if is_digit c
      then (if d = CHR ''_'' then parse_digits (acc * 10 + digit_val c) ds
            else parse_digits (acc * 10 + digit_val c) (d # ds))
      else None)"

text \<open>\<^verbatim>\<open>int(s)\<close> for a string \<open>s\<close>: surrounding whitespace, an optional sign, the digits.\<close>

definition int_of_str :: "string \<Rightarrow> int option" where
  "int_of_str s =
     (case rev (dropWhile is_int_space (rev (dropWhile is_int_space s))) of
        [] \<Rightarrow> None
      | c # cs \<Rightarrow>
          if c = CHR ''-'' then map_option uminus (parse_digits 0 cs)
          else if c = CHR ''+'' then parse_digits 0 cs
          else parse_digits 0 (c # cs))"

text \<open>\<^verbatim>\<open>int(x)\<close> for a float \<open>x\<close>: truncation towards zero.\<close>

definition py_int :: "rat \<Rightarrow> int" where
  "py_int x = (if 0 \<le> x then \<lfloor>x\<rfloor> else \<lceil>x\<rceil>)"

text \<open>\<^verbatim>\<open>sub in s\<close> for strings.\<close>

fun str_contains :: "string \<Rightarrow> string \<Rightarrow> bool" where
  "str_contains [] sub = (sub = [])"
| "str_contains (c # cs) sub = (take (length sub) (c # cs) = sub \<or> str_contains cs sub)"

subsection \<open>Salary\<close>

record salary =
  salary_from :: rat
  salary_to :: rat
  salary_currency :: string
  average_salary :: rat

text \<open>
  \<^verbatim>\<open>Salary.__init__\<close>, on bounds that are numbers already (for a number \<^verbatim>\<open>float\<close> is the
  identity here). The stored average is \<^verbatim>\<open>int(float(salary_from) + float(salary_to)) / 2\<close>:
  the sum is truncated, the division by two is not.
\<close>

definition Salary :: "rat \<Rightarrow> rat \<Rightarrow> string \<Rightarrow> salary" where
  "Salary lo hi cur =
     \<lparr>salary_from = lo, salary_to = hi, salary_currency = cur,
      average_salary = of_int (py_int (lo + hi)) / 2\<rparr>"

text \<open>The table \<^verbatim>\<open>currency_to_rub\<close> of \<^verbatim>\<open>convert_to_rubles\<close>.\<close>

definition currency_to_rub :: "(string, rat) dict" where
  "currency_to_rub =
     [(''AZN'', 3568 / 100), (''BYR'', 2391 / 100), (''EUR'', 5990 / 100),
      (''GEL'', 2174 / 100), (''KGS'', 76 / 100), (''KZT'', 13 / 100),
      (''RUR'', 1), (''UAH'', 164 / 100), (''USD'', 6066 / 100),
      (''UZS'', 55 / 10000)]"

text \<open>The keys of the table, as the specification lists them.\<close>

definition known_codes :: "string list" where
  "known_codes =
     [''AZN'', ''BYR'', ''EUR'', ''GEL'', ''KGS'', ''KZT'', ''RUR'', ''UAH'', ''USD'', ''UZS'']"

definition convert_to_rubles :: "salary \<Rightarrow> error + rat" where
  "convert_to_rubles s =
     and_then (dict_get currency_to_rub (salary_currency s))
       (\<lambda>rate. Inr (average_salary s * rate))"

subsection \<open>Row normalisation\<close>

text \<open>
  Reading on from just after a \<open><\<close>: the rest of the string after the first \<open>>\<close>, when no
  newline comes before it (the pattern's dot does not match a newline).
\<close>

fun tag_rest :: "string \<Rightarrow> string option" where
  "tag_rest [] = None"
| "tag_rest (c # cs) =
     (if c = CHR ''>'' then Some cs
      else if c = CHR 0x0A then None
      else tag_rest cs)"

text \<open>\<^verbatim>\<open>re.sub("<.*?>", "", s)\<close>: every leftmost shortest match is removed.\<close>

function strip_tags :: "string \<Rightarrow> string" where
  "strip_tags [] = []"
| "strip_tags (c # cs) =
     (if c = CHR ''<''
      then (case tag_rest cs of
              Some r \<Rightarrow> strip_tags r
            | None \<Rightarrow> c # strip_tags cs)
      else c # strip_tags cs)"
  by pat_completeness auto
termination
proof -
  have shorter: "length r \<le> length cs" if "tag_rest cs = Some r" for cs r
    using that by (induction cs) (auto split: if_splits)
  show ?thesis
    by (relation "measure length") (auto dest: shorter)
qed

text \<open>\<^verbatim>\<open>s.replace('\n', '; ')\<close>.\<close>

definition replace_newlines :: "string \<Rightarrow> string" where
  "replace_newlines s = concat (map (\<lambda>c. if c = CHR 0x0A then ''; '' else [c]) s)"

text \<open>\<^verbatim>\<open>s.split()\<close>: the maximal runs of characters that are not whitespace; \<open>w\<close> is the run being read.\<close>

fun split_from :: "string \<Rightarrow> string \<Rightarrow> string list" where
  "split_from w [] = (if w = [] then [] else [w])"
| "split_from w (c # cs) =
     (if is_space c
      then (if w = [] then split_from [] cs else w # split_from [] cs)
      else split_from (w @ [c]) cs)"

definition split :: "string \<Rightarrow> string list" where
  "split s = split_from [] s"

text \<open>\<^verbatim>\<open>sep.join(ws)\<close>.\<close>

fun join :: "string \<Rightarrow> string list \<Rightarrow> string" where
  "join sep [] = []"
| "join sep [w] = w"
| "join sep (w # v # ws) = w @ sep @ join sep (v # ws)"

text \<open>The field transformation of \<^verbatim>\<open>process_vacancies\<close>.\<close>

definition normalize :: "string \<Rightarrow> string" where
  "normalize v = join '' '' (split (replace_newlines (strip_tags v)))"

text \<open>Whether \<^verbatim>\<open><.*?>\<close> matches somewhere in the string: a tag-like substring.\<close>

fun has_tag :: "string \<Rightarrow> bool" where
  "has_tag [] = False"
| "has_tag (c # cs) = ((c = CHR ''<'' \<and> tag_rest cs \<noteq> None) \<or> has_tag cs)"

subsection \<open>Vacancy and DataSet\<close>

record vacancy =
  name :: string
  salary :: salary
  area_name :: string
  published_at :: string
  year :: string

text \<open>
  \<^verbatim>\<open>Vacancy.__init__\<close> on a dictionary of strings. The builtin \<^verbatim>\<open>float\<close> on a string is the
  parameter \<open>to_float\<close>, with \<open>None\<close> for its \<^verbatim>\<open>ValueError\<close>. The three salary entries are
  looked up before \<^verbatim>\<open>Salary.__init__\<close> converts the bounds.
\<close>

definition Vacancy :: "(string \<Rightarrow> rat option) \<Rightarrow> (string, string) dict \<Rightarrow> error + vacancy" where
  "Vacancy to_float d =
     and_then (dict_get d ''name'') (\<lambda>n.
     and_then (dict_get d ''salary_from'') (\<lambda>sf.
     and_then (dict_get d ''salary_to'') (\<lambda>st.
     and_then (dict_get d ''salary_currency'') (\<lambda>cur.
     and_then (or_raise ValueError (to_float sf)) (\<lambda>lo.
     and_then (or_raise ValueError (to_float st)) (\<lambda>hi.
     and_then (dict_get d ''area_name'') (\<lambda>a.
     and_then (dict_get d ''published_at'') (\<lambda>p.
       Inr \<lparr>name = n, salary = Salary lo hi cur, area_name = a,
            published_at = p, year = take 4 p\<rparr>))))))))"

text \<open>The test of \<^verbatim>\<open>process_vacancies\<close> on a raw row.\<close>

definition row_ok :: "string list \<Rightarrow> string list \<Rightarrow> bool" where
  "row_ok headlines vacancy \<longleftrightarrow>
     length vacancy = length headlines \<and> list_all (\<lambda>v. v \<noteq> []) vacancy"

text \<open>What one accepted row becomes.\<close>

definition row_vacancy ::
  "(string \<Rightarrow> rat option) \<Rightarrow> string list \<Rightarrow> string list \<Rightarrow> error + vacancy" where
  "row_vacancy to_float headlines vacancy =
     Vacancy to_float (dict_of_pairs (zip headlines (map normalize vacancy)))"

fun process_vacancies ::
  "(string \<Rightarrow> rat option) \<Rightarrow> string list \<Rightarrow> string list list \<Rightarrow> error + vacancy list" where
  "process_vacancies to_float headlines [] = Inr []"
| "process_vacancies to_float headlines (vacancy # vacancies) =
     (if row_ok headlines vacancy
      then and_then (row_vacancy to_float headlines vacancy) (\<lambda>v.
           and_then (process_vacancies to_float headlines vacancies) (\<lambda>result.
             Inr (v # result)))
      else process_vacancies to_float headlines vacancies)"

text \<open>
  A reader of plain decimal literals (digits, with an optional fraction), on which
  \<^verbatim>\<open>float\<close> gives the same number; it stands for \<open>to_float\<close> in the examples.
\<close>

definition dec_float :: "string \<Rightarrow> rat option" where
  "dec_float s =
     (let ip = takeWhile is_digit s; r = dropWhile is_digit s
      in if ip = [] then None
         else if r = [] then map_option of_int (parse_digits 0 ip)
         else if hd r = CHR ''.'' \<and> tl r \<noteq> [] \<and> list_all is_digit (tl r)
         then (case (parse_digits 0 ip, parse_digits 0 (tl r)) of
                 (Some a, Some b) \<Rightarrow> Some (of_int a + of_int b / 10 ^ length (tl r))
               | _ \<Rightarrow> None)
         else None)"

subsection \<open>YearSalary\<close>

record year_salary =
  param :: string
  ys_salary :: rat
  count_vacancies :: int

definition YearSalary :: "string \<Rightarrow> salary \<Rightarrow> error + year_salary" where
  "YearSalary p s =
     and_then (convert_to_rubles s)
       (\<lambda>r. Inr \<lparr>param = p, ys_salary = r, count_vacancies = 1\<rparr>)"

text \<open>The count is raised first, then the converted salary is added.\<close>

definition add_salary :: "year_salary \<Rightarrow> salary \<Rightarrow> error + year_salary" where
  "add_salary ys new_salary =
     and_then (convert_to_rubles new_salary)
       (\<lambda>r. Inr (ys\<lparr>count_vacancies := count_vacancies ys + 1,
                     ys_salary := ys_salary ys + r\<rparr>))"

subsection \<open>Statistic\<close>

text \<open>
  The loop of \<^verbatim>\<open>convert_to_param_salary\<close> over the dictionary \<^verbatim>\<open>param_salary\<close>, keyed
  by year.
\<close>

fun param_salary_loop ::
  "(string, year_salary) dict \<Rightarrow> vacancy list \<Rightarrow> error + (string, year_salary) dict" where
  "param_salary_loop d [] = Inr d"
| "param_salary_loop d (v # vs) =
     (case map_of d (year v) of
        None \<Rightarrow>
          and_then (YearSalary (year v) (salary v))
            (\<lambda>ys. param_salary_loop (dict_set d (year v) ys) vs)
      | Some ys \<Rightarrow>
          and_then (add_salary ys (salary v))
            (\<lambda>ys'. param_salary_loop (dict_set d (year v) ys') vs))"

text \<open>The result lists the dictionary's values in the order of its keys.\<close>

definition convert_to_param_salary :: "vacancy list \<Rightarrow> error + year_salary list" where
  "convert_to_param_salary vacancies =
     and_then (param_salary_loop [] vacancies) (\<lambda>d. Inr (map snd d))"

text \<open>\<^verbatim>\<open>[int(r.param) for r in param_salary]\<close>: the first string that is no integer raises.\<close>

fun int_params :: "year_salary list \<Rightarrow> error + int list" where
  "int_params [] = Inr []"
| "int_params (r # rs) =
     and_then (or_raise ValueError (int_of_str (param r))) (\<lambda>k.
     and_then (int_params rs) (\<lambda>ks. Inr (k # ks)))"

definition average :: "year_salary \<Rightarrow> int" where
  "average v =
     (if count_vacancies v = 0 then 0
      else py_int (ys_salary v / of_int (count_vacancies v)))"

definition convert_from_param_salary_to_dict ::
  "year_salary list \<Rightarrow> error + ((int, int) dict \<times> (int, int) dict)" where
  "convert_from_param_salary_to_dict param_salary =
     and_then (int_params param_salary) (\<lambda>ks.
       Inr (dict_of_pairs (zip ks (map average param_salary)),
            dict_of_pairs (zip ks (map count_vacancies param_salary))))"

text \<open>
  The body of the loop of \<^verbatim>\<open>__add_missing_years\<close> for a year \<open>y\<close> that is missing:
  the insertion at \<^verbatim>\<open>int(y) - int(years[0])\<close>, then the assignment of the count at the
  same index.
\<close>

definition add_year :: "string list \<Rightarrow> year_salary list \<Rightarrow> string \<Rightarrow> error + year_salary list" where
  "add_year years param_salary y =
     and_then (or_raise ValueError (int_of_str y)) (\<lambda>a.
     and_then (case years of [] \<Rightarrow> Inl IndexError | y0 # _ \<Rightarrow> Inr y0) (\<lambda>y0.
     and_then (or_raise ValueError (int_of_str y0)) (\<lambda>b.
     and_then (YearSalary y (Salary 0 0 ''RUR'')) (\<lambda>z.
       let inserted = list_insert param_salary (a - b) z
       in and_then (list_index (length inserted) (a - b)) (\<lambda>j.
            Inr (inserted[j := (inserted ! j)\<lparr>count_vacancies := 0\<rparr>]))))))"

fun add_years_loop ::
  "string list \<Rightarrow> string list \<Rightarrow> year_salary list \<Rightarrow> string list \<Rightarrow> error + year_salary list" where
  "add_years_loop years s_years param_salary [] = Inr param_salary"
| "add_years_loop years s_years param_salary (y # ys) =
     (if y \<notin> set s_years
      then and_then (add_year years param_salary y)
             (\<lambda>param_salary'. add_years_loop years s_years param_salary' ys)
      else add_years_loop years s_years param_salary ys)"

definition add_missing_years ::
  "year_salary list \<Rightarrow> year_salary list \<Rightarrow> error + year_salary list" where
  "add_missing_years param_salary year_salary =
     (let years = map param year_salary;
          s_years = map param param_salary
      in add_years_loop years s_years param_salary years)"

type_synonym stats =
  "(int, int) dict \<times> (int, int) dict \<times> (int, int) dict \<times> (int, int) dict"

text \<open>
  \<^verbatim>\<open>process_data\<close>, from the vacancies that \<^verbatim>\<open>DataSet(file_name).vacancies_objects\<close> holds.
\<close>

definition process_data :: "string \<Rightarrow> vacancy list \<Rightarrow> error + stats" where
  "process_data profession data =
     (let data_profession = filter (\<lambda>d. str_contains (name d) profession) data
      in and_then (convert_to_param_salary data) (\<lambda>year_salary.
         and_then (convert_to_param_salary data_profession) (\<lambda>selected.
         and_then (add_missing_years selected year_salary) (\<lambda>professions_year_salary.
         and_then (convert_from_param_salary_to_dict year_salary) (\<lambda>(ys, yv).
         and_then (convert_from_param_salary_to_dict professions_year_salary) (\<lambda>(ps, pv).
           Inr (ys, yv, ps, pv)))))))"

subsection \<open>The merge of the per-file results\<close>

text \<open>One round of the inner loop: each of the four dictionaries takes the file's entries.\<close>

definition merge_step :: "stats \<Rightarrow> stats \<Rightarrow> stats" where
  "merge_step acc el =
     (case (acc, el) of
        ((ys, yv, ps, pv), (ys', yv', ps', pv')) \<Rightarrow>
          (dict_update ys ys', dict_update yv yv', dict_update ps ps', dict_update pv pv'))"

text \<open>The results \<open>r\<close> come in the order in which the files were submitted.\<close>

definition merge_results :: "stats list \<Rightarrow> stats" where
  "merge_results r = foldl merge_step ([], [], [], []) r"

subsection \<open>Notions of the specification\<close>

text \<open>The elements of a list in the order of their first appearance.\<close>

definition first_occ :: "'a list \<Rightarrow> 'a list" where
  "first_occ xs = rev (remdups (rev xs))"

text \<open>
  \<open>m\<close> merges \<open>d\<close> and then \<open>e\<close>: its keys are the keys of both, a key of \<open>e\<close> has the
  value that \<open>e\<close> gives it, and any other key the value that \<open>d\<close> gives it.
\<close>

definition merged_from :: "('k, 'v) dict \<Rightarrow> ('k, 'v) dict \<Rightarrow> ('k, 'v) dict \<Rightarrow> bool" where
  "merged_from m d e \<longleftrightarrow>
     set (keys m) = set (keys d) \<union> set (keys e)
     \<and> (\<forall>k \<in> set (keys e). map_of m k = map_of e k)
     \<and> (\<forall>k. k \<notin> set (keys e) \<longrightarrow> map_of m k = map_of d k)"

text \<open>The two characters that delimit a tag.\<close>

definition angle :: "char \<Rightarrow> bool" where
  "angle c \<longleftrightarrow> c = CHR ''<'' \<or> c = CHR ''>''"

text \<open>The entry that stands for a year without vacancies.\<close>

definition zero_entry :: "string \<Rightarrow> year_salary" where
  "zero_entry y = \<lparr>param = y, ys_salary = 0, count_vacancies = 0\<rparr>"

text \<open>
  The entries \<open>ps\<close> laid along the years \<open>ys\<close>: where the next entry is not of the next
  year, the year gets the entry without vacancies.
\<close>

fun filled :: "string list \<Rightarrow> year_salary list \<Rightarrow> year_salary list" where
  "filled [] ps = ps"
| "filled (y # ys) [] = zero_entry y # filled ys []"
| "filled (y # ys) (p # ps) =
     (if param p = y then p # filled ys ps else zero_entry y # filled ys (p # ps))"

section \<open>Properties\<close>

subsection \<open>Basic facts\<close>

lemma and_then_simps [simp]:
  "and_then (Inl e) f = Inl e" "and_then (Inr x) f = f x"
  by (simp_all add: and_then_def)

lemma or_raise_simps [simp]:
  "or_raise e None = Inl e" "or_raise e (Some x) = Inr x"
  by (simp_all add: or_raise_def)

lemma keys_currency_to_rub: "keys currency_to_rub = known_codes"
  by (simp add: keys_def currency_to_rub_def known_codes_def)

lemma convert_to_rubles_cases:
  "convert_to_rubles s =
     (case map_of currency_to_rub (salary_currency s) of
        None \<Rightarrow> Inl KeyError
      | Some rate \<Rightarrow> Inr (average_salary s * rate))"
  by (simp add: convert_to_rubles_def dict_get_def split: option.split)

lemma map_of_currency_None:
  "map_of currency_to_rub c = None \<longleftrightarrow> c \<notin> set known_codes"
  by (simp add: map_of_eq_None_iff keys_currency_to_rub [unfolded keys_def, symmetric])

text \<open>A separator in front of the digits is no whitespace for \<^verbatim>\<open>int()\<close>.\<close>

lemma int_of_str_separator: "int_of_str (CHR 0x1C # ''2007'') = None"
  by code_simp

subsection \<open>Dictionaries and first appearance\<close>

lemma and_then_Inr_iff:
  "and_then m f = Inr y \<longleftrightarrow> (\<exists>x. m = Inr x \<and> f x = Inr y)"
  by (cases m) simp_all

lemma or_raise_Inr_iff: "or_raise e m = Inr x \<longleftrightarrow> m = Some x"
  by (cases m) simp_all

lemma first_occ_Nil [simp]: "first_occ [] = []"
  by (simp add: first_occ_def)

lemma remdups_snoc: "remdups (ys @ [x]) = filter (\<lambda>y. y \<noteq> x) (remdups ys) @ [x]"
  by (induction ys) auto

lemma first_occ_Cons: "first_occ (x # xs) = x # filter (\<lambda>y. y \<noteq> x) (first_occ xs)"
  by (simp add: first_occ_def remdups_snoc rev_filter)

lemma set_first_occ [simp]: "set (first_occ xs) = set xs"
  by (simp add: first_occ_def)

lemma distinct_first_occ [simp]: "distinct (first_occ xs)"
  by (simp add: first_occ_def)

lemma first_occ_map_first_occ: "first_occ (map f (first_occ xs)) = first_occ (map f xs)"
  by (simp add: first_occ_def rev_map remdups_map_remdups)

lemma keys_dict_set:
  "keys (dict_set d k v) = (if k \<in> set (keys d) then keys d else keys d @ [k])"
  by (simp add: keys_def dict_set_def update_keys)

lemma map_of_dict_set: "map_of (dict_set d k v) = (map_of d)(k \<mapsto> v)"
  by (simp add: dict_set_def update_conv')

lemma dict_update_Nil [simp]: "dict_update d [] = d"
  by (simp add: dict_update_def)

lemma dict_update_Cons [simp]: "dict_update d ((k, v) # e) = dict_update (dict_set d k v) e"
  by (simp add: dict_update_def)

lemma keys_dict_update:
  "keys (dict_update d e) = keys d @ filter (\<lambda>k. k \<notin> set (keys d)) (first_occ (keys e))"
proof (induction e arbitrary: d)
  case Nil
  then show ?case by (simp add: keys_def)
next
  case (Cons p e)
  obtain k v where p: "p = (k, v)" by (cases p)
  have ke: "keys ((k, v) # e) = k # keys e"
    by (simp add: keys_def)
  show ?case
  proof (cases "k \<in> set (keys d)")
    case True
    have "filter (\<lambda>x. x \<notin> set (keys d)) (filter (\<lambda>y. y \<noteq> k) (first_occ (keys e)))
          = filter (\<lambda>x. x \<notin> set (keys d)) (first_occ (keys e))"
      using True by (auto intro: filter_cong)
    with True show ?thesis
      by (simp add: p ke Cons.IH keys_dict_set first_occ_Cons del: filter_filter)
  next
    case False
    have "filter (\<lambda>x. x \<noteq> k \<and> x \<notin> set (keys d)) (first_occ (keys e))
          = filter (\<lambda>x. x \<notin> set (keys d)) (filter (\<lambda>y. y \<noteq> k) (first_occ (keys e)))"
      by (auto intro: filter_cong)
    with False show ?thesis
      by (simp add: p ke Cons.IH keys_dict_set first_occ_Cons del: filter_filter)
  qed
qed

lemma keys_dict_of_pairs: "keys (dict_of_pairs ps) = first_occ (map fst ps)"
  by (simp add: dict_of_pairs_def keys_dict_update) (simp add: keys_def)

lemma map_of_dict_update: "map_of (dict_update d e) = map_of d ++ map_of (rev e)"
proof (induction e arbitrary: d)
  case Nil
  then show ?case by simp
next
  case (Cons p e)
  obtain k v where p: "p = (k, v)" by (cases p)
  have "map_of (dict_update (dict_set d k v) e) = map_of d ++ map_of (rev e @ [(k, v)])"
    by (rule ext) (simp add: Cons.IH map_of_dict_set map_add_def split: option.split)
  then show ?case
    by (simp add: p)
qed

lemma map_of_rev_distinct:
  assumes "distinct (map fst xs)"
  shows "map_of (rev xs) = map_of xs"
proof
  fix k
  have d: "distinct (map fst (rev xs))"
    using assms by (simp add: rev_map [symmetric])
  show "map_of (rev xs) k = map_of xs k"
  proof (cases "map_of xs k")
    case None
    then have "k \<notin> fst ` set xs" by (simp add: map_of_eq_None_iff)
    then have "map_of (rev xs) k = None" by (simp add: map_of_eq_None_iff)
    with None show ?thesis by simp
  next
    case (Some v)
    then have "(k, v) \<in> set (rev xs)" by (auto dest: map_of_SomeD)
    with d have "map_of (rev xs) k = Some v" by (simp only: map_of_eq_Some_iff)
    with Some show ?thesis by simp
  qed
qed

lemma merged_from_dict_update:
  assumes "distinct (keys e)"
  shows "merged_from (dict_update d e) d e"
proof -
  have m: "map_of (dict_update d e) = map_of d ++ map_of e"
    using assms by (simp add: map_of_dict_update map_of_rev_distinct keys_def)
  have "set (keys (dict_update d e)) = set (keys d) \<union> set (keys e)"
    by (auto simp: keys_dict_update)
  moreover have "\<forall>k \<in> set (keys e). map_of (dict_update d e) k = map_of e k"
    by (auto simp: m keys_def map_add_def split: option.splits simp: map_of_eq_None_iff)
  moreover have "\<forall>k. k \<notin> set (keys e) \<longrightarrow> map_of (dict_update d e) k = map_of d k"
  proof (intro allI impI)
    fix k assume "k \<notin> set (keys e)"
    then have "map_of e k = None" by (simp add: map_of_eq_None_iff keys_def)
    then show "map_of (dict_update d e) k = map_of d k" by (simp add: m map_add_def)
  qed
  ultimately show ?thesis by (simp add: merged_from_def)
qed

lemma merge_results_two:
  "merge_results [(a1, b1, c1, d1), (a2, b2, c2, d2)] =
     (dict_update (dict_update [] a1) a2, dict_update (dict_update [] b1) b2,
      dict_update (dict_update [] c1) c2, dict_update (dict_update [] d1) d2)"
  by (simp add: merge_results_def merge_step_def)

lemma dict_update_empty_distinct: "distinct (keys d) \<Longrightarrow> dict_update [] d = d"
proof (induction d rule: rev_induct)
  case Nil
  then show ?case by simp
next
  case (snoc p d)
  obtain k v where p: "p = (k, v)" by (cases p)
  from snoc.prems have dd: "distinct (keys d)" and nk: "k \<notin> set (keys d)"
    by (simp_all add: keys_def p)
  have "dict_update [] (d @ [p]) = dict_set (dict_update [] d) k v"
    by (simp add: dict_update_def p)
  also have "\<dots> = dict_set d k v" using dd by (simp add: snoc.IH)
  also have "\<dots> = d @ [(k, v)]"
    using nk by (induction d) (auto simp: dict_set_def keys_def)
  finally show ?case by (simp add: p)
qed

subsection \<open>Salary\<close>

text \<open>
  C1, as the code has it. The stored average of a salary is the truncated sum of the two
  bounds, halved without a second truncation: \<^verbatim>\<open>int(low + high) / 2\<close>. The conversion
  multiplies this value by the rate of the currency. \<^verbatim>\<open>Salary(100, 200, "RUR")\<close> converts
  to 150 and \<^verbatim>\<open>Salary(100, 200, "AZN")\<close> to 5352.
\<close>

theorem salary_average_halves_truncated_sum:
  "average_salary (Salary lo hi cur) = of_int (py_int (lo + hi)) / 2
   \<and> (map_of currency_to_rub cur = Some rate \<longrightarrow>
         convert_to_rubles (Salary lo hi cur) = Inr (of_int (py_int (lo + hi)) / 2 * rate))
   \<and> convert_to_rubles (Salary 100 200 ''RUR'') = Inr 150
   \<and> convert_to_rubles (Salary 100 200 ''AZN'') = Inr 5352"
  by (simp add: convert_to_rubles_cases) (simp add: Salary_def currency_to_rub_def py_int_def)

theorem salary_average_halves_truncated_sum_witness:
  "map_of currency_to_rub ''USD'' = Some (6066 / 100)
   \<and> convert_to_rubles (Salary 1000 2000 ''USD'') = Inr 90990"
proof -
  have r: "map_of currency_to_rub ''USD'' = Some (6066 / 100)"
    by (simp add: currency_to_rub_def)
  have "py_int (1000 + 2000) = 3000"
    by (simp add: py_int_def)
  with r salary_average_halves_truncated_sum [of 1000 2000 "''USD''" "6066 / 100"]
  show ?thesis by simp
qed

text \<open>
  C1 as stated, with the midpoint truncated, fails for the bounds 100 and 201: the
  code converts to 150.5, the truncated midpoint times the rate 1 is 150.
\<close>

theorem salary_midpoint_not_truncated:
  "convert_to_rubles (Salary 100 201 ''RUR'') = Inr (301 / 2)
   \<and> map_of currency_to_rub ''RUR'' = Some 1
   \<and> of_int (py_int ((100 + 201) / 2)) * 1 = (150 :: rat)"
  by code_simp

text \<open>
  C7. The conversion raises \<^verbatim>\<open>KeyError\<close> exactly when the currency code is none of the ten
  known codes, and it raises nothing else; for a known code the result is the stored
  average times the rate of the code. The rate of \<^verbatim>\<open>RUR\<close> is 1.
\<close>

theorem convert_to_rubles_KeyError_iff_unknown:
  "(convert_to_rubles s = Inl KeyError \<longleftrightarrow> salary_currency s \<notin> set known_codes)
   \<and> (\<forall>e. convert_to_rubles s = Inl e \<longrightarrow> e = KeyError)
   \<and> (salary_currency s \<in> set known_codes \<longrightarrow>
        (\<exists>rate. map_of currency_to_rub (salary_currency s) = Some rate
           \<and> convert_to_rubles s = Inr (average_salary s * rate)))
   \<and> map_of currency_to_rub ''RUR'' = Some 1
   \<and> length known_codes = 10"
proof -
  have a: "convert_to_rubles s = Inl KeyError \<longleftrightarrow> salary_currency s \<notin> set known_codes"
    using map_of_currency_None [of "salary_currency s"]
    by (auto simp: convert_to_rubles_cases split: option.splits)
  have b: "\<forall>e. convert_to_rubles s = Inl e \<longrightarrow> e = KeyError"
    by (auto simp: convert_to_rubles_cases split: option.splits)
  have c: "salary_currency s \<in> set known_codes \<longrightarrow>
        (\<exists>rate. map_of currency_to_rub (salary_currency s) = Some rate
           \<and> convert_to_rubles s = Inr (average_salary s * rate))"
    using map_of_currency_None [of "salary_currency s"]
    by (auto simp: convert_to_rubles_cases split: option.splits)
  have d: "map_of currency_to_rub ''RUR'' = Some 1" "length known_codes = 10"
    by (simp_all add: currency_to_rub_def known_codes_def)
  from a b c d show ?thesis by blast
qed

theorem convert_to_rubles_KeyError_iff_unknown_witness:
  "salary_currency (Salary 100 200 ''EUR'') \<in> set known_codes
   \<and> convert_to_rubles (Salary 100 200 ''EUR'') = Inr 8985
   \<and> salary_currency (Salary 100 200 ''RUB'') \<notin> set known_codes
   \<and> convert_to_rubles (Salary 100 200 ''RUB'') = Inl KeyError"
proof -
  have k: "salary_currency (Salary 100 200 ''EUR'') \<in> set known_codes"
    "salary_currency (Salary 100 200 ''RUB'') \<notin> set known_codes"
    by (simp_all add: Salary_def known_codes_def)
  have r: "map_of currency_to_rub (salary_currency (Salary 100 200 ''EUR'')) = Some (5990 / 100)"
    by (simp add: Salary_def currency_to_rub_def)
  have v: "average_salary (Salary 100 200 ''EUR'') = 150"
    by (simp add: Salary_def py_int_def)
  from convert_to_rubles_KeyError_iff_unknown [of "Salary 100 200 ''EUR''"] k(1) r v
  have "convert_to_rubles (Salary 100 200 ''EUR'') = Inr 8985" by auto
  moreover from convert_to_rubles_KeyError_iff_unknown [of "Salary 100 200 ''RUB''"] k(2)
  have "convert_to_rubles (Salary 100 200 ''RUB'') = Inl KeyError" by blast
  ultimately show ?thesis using k by blast
qed

subsection \<open>Rows and vacancies\<close>

lemma process_vacancies_filter:
  "process_vacancies tf h rows = process_vacancies tf h (filter (row_ok h) rows)"
  by (induction rows) simp_all

lemma process_vacancies_rows:
  "process_vacancies tf h rows = Inr result \<Longrightarrow>
     list_all2 (\<lambda>row v. row_vacancy tf h row = Inr v) (filter (row_ok h) rows) result"
  by (induction rows arbitrary: result) (auto simp: and_then_Inr_iff split: if_splits)

lemma process_vacancies_total:
  "\<forall>row \<in> set rows. row_ok h row \<longrightarrow> (\<exists>v. row_vacancy tf h row = Inr v) \<Longrightarrow>
     \<exists>result. process_vacancies tf h rows = Inr result"
  by (induction rows) auto

text \<open>
  C2, as the code has it. A raw row is accepted exactly when it has as many fields as the
  header and none of its fields is the empty string; the test reads the fields as they
  are, before any normalisation. Rows that fail the test change nothing: the result is
  that of the accepted rows alone, and no error comes from a rejected row. When the
  construction of every accepted row succeeds the function returns, and its result holds
  one vacancy for each accepted row, in their order.
\<close>

theorem process_vacancies_keeps_nonempty_rows:
  "(row_ok h row \<longleftrightarrow> length row = length h \<and> (\<forall>v \<in> set row. v \<noteq> []))
   \<and> process_vacancies tf h rows = process_vacancies tf h (filter (row_ok h) rows)
   \<and> ((\<forall>row \<in> set rows. row_ok h row \<longrightarrow> (\<exists>v. row_vacancy tf h row = Inr v)) \<longrightarrow>
        (\<exists>result. process_vacancies tf h rows = Inr result))
   \<and> (process_vacancies tf h rows = Inr result \<longrightarrow>
        list_all2 (\<lambda>row v. row_vacancy tf h row = Inr v) (filter (row_ok h) rows) result)"
  using process_vacancies_filter [of tf h rows] process_vacancies_rows [of tf h rows result]
    process_vacancies_total [of rows h tf]
  by (simp add: row_ok_def list_all_iff)

text \<open>
  A run of C2's theorem: of three rows, one complete, one with five fields, one with an
  empty field, only the first becomes a vacancy.
\<close>

theorem process_vacancies_keeps_nonempty_rows_witness:
  "process_vacancies dec_float
     [''name'', ''salary_from'', ''salary_to'', ''salary_currency'', ''area_name'', ''published_at'']
     [[''Programmer'', ''100'', ''200'', ''RUR'', ''Moscow'', ''2007-12-03T17:41:49+0300''],
      [''Analyst'', ''100'', ''200'', ''RUR'', ''Moscow''],
      [''Tester'', [], ''200'', ''RUR'', ''Moscow'', ''2007-12-03T17:41:49+0300'']]
   = Inr [\<lparr>name = ''Programmer'', salary = Salary 100 200 ''RUR'', area_name = ''Moscow'',
            published_at = ''2007-12-03T17:41:49+0300'', year = ''2007''\<rparr>]
   \<and> filter (row_ok [''name'', ''salary_from'', ''salary_to'', ''salary_currency'', ''area_name'', ''published_at''])
     [[''Programmer'', ''100'', ''200'', ''RUR'', ''Moscow'', ''2007-12-03T17:41:49+0300''],
      [''Analyst'', ''100'', ''200'', ''RUR'', ''Moscow''],
      [''Tester'', [], ''200'', ''RUR'', ''Moscow'', ''2007-12-03T17:41:49+0300'']]
     = [[''Programmer'', ''100'', ''200'', ''RUR'', ''Moscow'', ''2007-12-03T17:41:49+0300'']]"
proof -
  let ?h = "[''name'', ''salary_from'', ''salary_to'', ''salary_currency'', ''area_name'', ''published_at'']"
  let ?r1 = "[''Programmer'', ''100'', ''200'', ''RUR'', ''Moscow'', ''2007-12-03T17:41:49+0300'']"
  let ?rows = "[?r1, [''Analyst'', ''100'', ''200'', ''RUR'', ''Moscow''],
      [''Tester'', [], ''200'', ''RUR'', ''Moscow'', ''2007-12-03T17:41:49+0300'']]"
  let ?v = "\<lparr>name = ''Programmer'', salary = Salary 100 200 ''RUR'', area_name = ''Moscow'',
            published_at = ''2007-12-03T17:41:49+0300'', year = ''2007''\<rparr>"
  have f: "filter (row_ok ?h) ?rows = [?r1]"
    by (simp add: row_ok_def)
  have v: "row_vacancy dec_float ?h ?r1 = Inr ?v"
    by code_simp
  have t: "\<forall>row \<in> set ?rows. row_ok ?h row \<longrightarrow> (\<exists>v. row_vacancy dec_float ?h row = Inr v)"
    using v by (simp add: row_ok_def)
  from process_vacancies_keeps_nonempty_rows [of ?h ?r1 dec_float ?rows] t
  obtain result where r: "process_vacancies dec_float ?h ?rows = Inr result"
    by blast
  from process_vacancies_keeps_nonempty_rows [of ?h ?r1 dec_float ?rows result] r
  have "list_all2 (\<lambda>row v. row_vacancy dec_float ?h row = Inr v) (filter (row_ok ?h) ?rows) result"
    by blast
  then have "list_all2 (\<lambda>row v. row_vacancy dec_float ?h row = Inr v) [?r1] result"
    by (simp only: f)
  then have "result = [?v]"
    using v by (auto simp: list_all2_Cons1)
  with r f show ?thesis by simp
qed

text \<open>
  C2 as stated, with the fields tested after trimming, fails: a row whose location is
  two blanks has an empty field after trimming, and yet it is kept, with the empty
  location.
\<close>

theorem whitespace_only_field_kept:
  "process_vacancies dec_float
     [''name'', ''salary_from'', ''salary_to'', ''salary_currency'', ''area_name'', ''published_at'']
     [[''Programmer'', ''100'', ''200'', ''RUR'', ''  '', ''2007-12-03T17:41:49+0300'']]
   = Inr [\<lparr>name = ''Programmer'', salary = Salary 100 200 ''RUR'', area_name = [],
            published_at = ''2007-12-03T17:41:49+0300'', year = ''2007''\<rparr>]
   \<and> strip ''  '' = []"
  by code_simp

text \<open>
  What the normalisation does achieve: its result never holds a newline, and it holds no
  tag-like substring when the raw field holds no newline.
\<close>

lemma is_space_newline: "is_space (CHR 0x0A)"
  by (simp add: is_space_def)

lemma split_from_no_space:
  "\<forall>c \<in> set w. \<not> is_space c \<Longrightarrow> \<forall>x \<in> set (split_from w s). \<forall>c \<in> set x. \<not> is_space c"
proof (induction s arbitrary: w)
  case Nil
  then show ?case by simp
next
  case (Cons a s)
  show ?case
  proof (cases "is_space a")
    case True
    from Cons.IH [of "[]"] have "\<forall>x \<in> set (split_from [] s). \<forall>c \<in> set x. \<not> is_space c"
      by simp
    with True Cons.prems show ?thesis by simp
  next
    case False
    with Cons.prems have "\<forall>c \<in> set (w @ [a]). \<not> is_space c" by simp
    then have "\<forall>x \<in> set (split_from (w @ [a]) s). \<forall>c \<in> set x. \<not> is_space c"
      by (rule Cons.IH)
    with False show ?thesis by simp
  qed
qed

lemma set_join: "set (join sep ws) \<subseteq> set sep \<union> \<Union> (set ` set ws)"
  by (induction sep ws rule: join.induct) auto

lemma normalize_no_newline: "CHR 0x0A \<notin> set (normalize v)"
proof
  assume "CHR 0x0A \<in> set (normalize v)"
  then have "CHR 0x0A \<in> set '' '' \<union> \<Union> (set ` set (split (replace_newlines (strip_tags v))))"
    unfolding normalize_def using set_join by blast
  then obtain x where "x \<in> set (split_from [] (replace_newlines (strip_tags v)))"
    and "CHR 0x0A \<in> set x"
    by (auto simp: split_def)
  with split_from_no_space [of "[]" "replace_newlines (strip_tags v)"]
  have "\<not> is_space (CHR 0x0A)" by auto
  with is_space_newline show False by simp
qed

lemma tag_rest_None_iff:
  "CHR 0x0A \<notin> set s \<Longrightarrow> tag_rest s = None \<longleftrightarrow> CHR ''>'' \<notin> set s"
  by (induction s) auto

lemma tag_rest_subset: "tag_rest s = Some r \<Longrightarrow> set r \<subseteq> set s"
  by (induction s arbitrary: r) (auto split: if_splits)

lemma set_strip_tags: "set (strip_tags s) \<subseteq> set s"
proof (induction s rule: strip_tags.induct)
  case 1
  then show ?case by simp
next
  case (2 c cs)
  show ?case
  proof (cases "c = CHR ''<''")
    case False
    with 2 show ?thesis by auto
  next
    case True
    show ?thesis
    proof (cases "tag_rest cs")
      case None
      with 2 True show ?thesis by auto
    next
      case (Some r)
      with 2 True have "set (strip_tags r) \<subseteq> set r" by simp
      with tag_rest_subset [OF Some] Some True show ?thesis by auto
    qed
  qed
qed

lemma strip_tags_no_tag: "CHR 0x0A \<notin> set s \<Longrightarrow> \<not> has_tag (strip_tags s)"
proof (induction s rule: strip_tags.induct)
  case 1
  then show ?case by simp
next
  case (2 c cs)
  show ?case
  proof (cases "c = CHR ''<''")
    case False
    with 2 show ?thesis by simp
  next
    case True
    show ?thesis
    proof (cases "tag_rest cs")
      case None
      with 2 True have "CHR ''>'' \<notin> set cs"
        by (simp add: tag_rest_None_iff)
      with set_strip_tags [of cs] have g: "CHR ''>'' \<notin> set (strip_tags cs)"
        by blast
      from 2 set_strip_tags [of cs] have "CHR 0x0A \<notin> set (strip_tags cs)"
        by auto
      with g have "tag_rest (strip_tags cs) = None"
        by (simp add: tag_rest_None_iff)
      with 2 True None show ?thesis by simp
    next
      case (Some r)
      with 2 tag_rest_subset [OF Some] True show ?thesis by auto
    qed
  qed
qed

lemma replace_newlines_id: "CHR 0x0A \<notin> set s \<Longrightarrow> replace_newlines s = s"
  by (induction s) (auto simp: replace_newlines_def)

lemma has_tag_filter_angle:
  "CHR 0x0A \<notin> set s \<Longrightarrow> has_tag (filter angle s) = has_tag s"
proof (induction s)
  case Nil
  then show ?case by simp
next
  case (Cons c cs)
  then have n: "CHR 0x0A \<notin> set cs" "CHR 0x0A \<notin> set (filter angle cs)" by auto
  have "CHR ''>'' \<in> set (filter angle cs) \<longleftrightarrow> CHR ''>'' \<in> set cs"
    by (simp add: angle_def)
  with tag_rest_None_iff [OF n(1)] tag_rest_None_iff [OF n(2)]
  have t: "(tag_rest (filter angle cs) = None) = (tag_rest cs = None)"
    by blast
  from Cons n have ih: "has_tag (filter angle cs) = has_tag cs" by simp
  show ?case
  proof (cases "angle c")
    case True
    then show ?thesis by (simp add: t ih)
  next
    case False
    then have "c \<noteq> CHR ''<''" by (simp add: angle_def)
    with False show ?thesis by (simp add: ih)
  qed
qed

lemma concat_split_from:
  "filter (\<lambda>c. \<not> is_space c) (concat (split_from w s)) = filter (\<lambda>c. \<not> is_space c) (w @ s)"
  by (induction s arbitrary: w) auto

lemma filter_join_space:
  "filter (\<lambda>c. \<not> is_space c) (join '' '' ws) = filter (\<lambda>c. \<not> is_space c) (concat ws)"
  by (induction "'' ''" ws rule: join.induct) (auto simp: is_space_def)

lemma filter_angle_nonspace: "filter angle (filter (\<lambda>c. \<not> is_space c) s) = filter angle s"
  by (induction s) (auto simp: angle_def is_space_def)

lemma filter_angle_join_split: "filter angle (join '' '' (split s)) = filter angle s"
proof -
  have "filter angle (join '' '' (split s))
        = filter angle (filter (\<lambda>c. \<not> is_space c) (join '' '' (split s)))"
    by (simp only: filter_angle_nonspace)
  also have "\<dots> = filter angle (filter (\<lambda>c. \<not> is_space c) s)"
    by (simp only: filter_join_space split_def concat_split_from append_Nil)
  finally show ?thesis by (simp only: filter_angle_nonspace)
qed

lemma normalize_no_tag:
  assumes "CHR 0x0A \<notin> set v"
  shows "\<not> has_tag (normalize v)"
proof -
  let ?t = "strip_tags v"
  from assms set_strip_tags [of v] have n: "CHR 0x0A \<notin> set ?t" by blast
  have "has_tag (normalize v) = has_tag (filter angle (normalize v))"
    using normalize_no_newline by (simp add: has_tag_filter_angle)
  also have "\<dots> = has_tag (filter angle ?t)"
    using n by (simp add: normalize_def replace_newlines_id filter_angle_join_split)
  also have "\<dots> = has_tag ?t"
    using n by (rule has_tag_filter_angle)
  finally show ?thesis
    using strip_tags_no_tag [OF assms] by simp
qed

text \<open>
  C3 at a field whose tag runs over a line break: the pattern does not match across the
  newline, the newline then becomes \<open>; \<close>, and the normalised field holds a tag-like
  substring.
\<close>

theorem normalize_keeps_tag_across_newline:
  "normalize (''<br'' @ [CHR 0x0A] @ ''/>Moscow'') = ''<br; />Moscow''
   \<and> has_tag (normalize (''<br'' @ [CHR 0x0A] @ ''/>Moscow''))"
  by code_simp

subsection \<open>Grouping by year\<close>

lemma YearSalary_cases:
  "YearSalary p s =
     (case map_of currency_to_rub (salary_currency s) of
        None \<Rightarrow> Inl KeyError
      | Some rate \<Rightarrow> Inr \<lparr>param = p, ys_salary = average_salary s * rate, count_vacancies = 1\<rparr>)"
  by (simp add: YearSalary_def convert_to_rubles_cases split: option.split)

lemma add_salary_cases:
  "add_salary ys s =
     (case map_of currency_to_rub (salary_currency s) of
        None \<Rightarrow> Inl KeyError
      | Some rate \<Rightarrow> Inr (ys\<lparr>count_vacancies := count_vacancies ys + 1,
                              ys_salary := ys_salary ys + average_salary s * rate\<rparr>))"
  by (simp add: add_salary_def convert_to_rubles_cases split: option.split)

lemma set_dict_set: "set (dict_set d k v) \<subseteq> insert (k, v) (set d)"
  unfolding dict_set_def by (induction d) auto

lemma keys_after_dict_set:
  "keys (dict_set d k r) @ filter (\<lambda>x. x \<notin> set (keys (dict_set d k r))) xs
   = keys d @ filter (\<lambda>x. x \<notin> set (keys d)) (k # filter (\<lambda>y. y \<noteq> k) xs)"
proof (cases "k \<in> set (keys d)")
  case True
  then have "filter (\<lambda>x. x \<noteq> k \<and> x \<notin> set (keys d)) xs = filter (\<lambda>x. x \<notin> set (keys d)) xs"
    by (auto intro: filter_cong)
  with True show ?thesis by (simp add: keys_dict_set)
next
  case False
  have "filter (\<lambda>x. x \<noteq> k \<and> x \<notin> set (keys d)) xs = filter (\<lambda>x. x \<notin> set (keys d) \<and> x \<noteq> k) xs"
    by (auto intro: filter_cong)
  with False show ?thesis by (simp add: keys_dict_set)
qed

lemma param_salary_loop_keys:
  assumes "param_salary_loop d vs = Inr d'"
  shows "keys d' = keys d @ filter (\<lambda>k. k \<notin> set (keys d)) (first_occ (map year vs))"
  using assms
proof (induction vs arbitrary: d)
  case Nil
  then show ?case by simp
next
  case (Cons v vs)
  from Cons.prems obtain r where
    step: "param_salary_loop (dict_set d (year v) r) vs = Inr d'"
    by (auto simp: and_then_Inr_iff split: option.splits)
  have "keys d' = keys (dict_set d (year v) r)
          @ filter (\<lambda>k. k \<notin> set (keys (dict_set d (year v) r))) (first_occ (map year vs))"
    using Cons.IH [OF step] .
  also have "\<dots> = keys d @ filter (\<lambda>k. k \<notin> set (keys d)) (first_occ (map year (v # vs)))"
    by (simp only: keys_after_dict_set first_occ_Cons list.map)
  finally show ?case .
qed

lemma param_salary_loop_params:
  assumes "param_salary_loop d vs = Inr d'" and "\<forall>(k, r) \<in> set d. param r = k"
  shows "\<forall>(k, r) \<in> set d'. param r = k"
  using assms
proof (induction vs arbitrary: d)
  case Nil
  then show ?case by simp
next
  case (Cons v vs)
  from Cons.prems(1) obtain r where
    step: "param_salary_loop (dict_set d (year v) r) vs = Inr d'"
    and r: "(map_of d (year v) = None \<and> YearSalary (year v) (salary v) = Inr r)
            \<or> (\<exists>r0. map_of d (year v) = Some r0 \<and> add_salary r0 (salary v) = Inr r)"
    by (auto simp: and_then_Inr_iff split: option.splits)
  from r have "param r = year v"
  proof
    assume "map_of d (year v) = None \<and> YearSalary (year v) (salary v) = Inr r"
    then show ?thesis by (auto simp: YearSalary_cases split: option.splits)
  next
    assume "\<exists>r0. map_of d (year v) = Some r0 \<and> add_salary r0 (salary v) = Inr r"
    then obtain r0 where m: "map_of d (year v) = Some r0" and a: "add_salary r0 (salary v) = Inr r"
      by blast
    from m have "(year v, r0) \<in> set d" by (rule map_of_SomeD)
    with Cons.prems(2) have "param r0 = year v" by auto
    with a show ?thesis by (auto simp: add_salary_cases split: option.splits)
  qed
  with Cons.prems(2) have "\<forall>(k, r) \<in> set (dict_set d (year v) r). param r = k"
    using set_dict_set [of d "year v" r] by auto
  with step show ?case by (rule Cons.IH)
qed

lemma param_salary_loop_total:
  assumes "\<forall>v \<in> set vs. salary_currency (salary v) \<in> set known_codes"
  shows "\<exists>d'. param_salary_loop d vs = Inr d'"
  using assms
proof (induction vs arbitrary: d)
  case Nil
  then show ?case by simp
next
  case (Cons v vs)
  then have "map_of currency_to_rub (salary_currency (salary v)) \<noteq> None"
    by (simp add: map_of_currency_None)
  then obtain rate where "map_of currency_to_rub (salary_currency (salary v)) = Some rate"
    by blast
  with Cons show ?case
    by (cases "map_of d (year v)") (simp_all add: YearSalary_cases add_salary_cases)
qed

lemma int_params_Inr_iff:
  "int_params rs = Inr ks \<longleftrightarrow> map (\<lambda>r. int_of_str (param r)) rs = map Some ks"
proof (induction rs arbitrary: ks)
  case Nil
  then show ?case by auto
next
  case (Cons r rs)
  show ?case
    by (cases ks) (auto simp: and_then_Inr_iff or_raise_Inr_iff Cons.IH)
qed

lemma int_params_length: "int_params rs = Inr ks \<Longrightarrow> length ks = length rs"
  by (auto simp: int_params_Inr_iff dest: map_eq_imp_length_eq)

lemma first_occ_map_inj: "inj f \<Longrightarrow> first_occ (map f xs) = map f (first_occ xs)"
  by (induction xs) (simp_all add: first_occ_Cons filter_map comp_def inj_eq)

text \<open>
  The part of C9 that holds, for the grouping and for mappings made straight from it.
  When every currency is known, grouping the vacancies by year returns, and the
  years of the groups are the years of the vacancies in the order of their first
  appearance. When moreover the years of the vacancies read as the integers \<open>ns\<close>, the
  two plain mappings made from the groups have as keys the integers in the order of their
  first appearance.
\<close>

lemma groups_in_order_of_first_appearance:
  assumes "\<forall>v \<in> set vs. salary_currency (salary v) \<in> set known_codes"
  shows "\<exists>groups. convert_to_param_salary vs = Inr groups
           \<and> map param groups = first_occ (map year vs)
           \<and> (map (\<lambda>v. int_of_str (year v)) vs = map Some ns \<longrightarrow>
                (\<exists>sm cm. convert_from_param_salary_to_dict groups = Inr (sm, cm)
                   \<and> keys sm = first_occ ns \<and> keys cm = first_occ ns))"
proof -
  from assms obtain d where d: "param_salary_loop [] vs = Inr d"
    using param_salary_loop_total by blast
  have g: "convert_to_param_salary vs = Inr (map snd d)"
    by (simp add: convert_to_param_salary_def d)
  have "\<forall>(k, r) \<in> set d. param r = k"
    using param_salary_loop_params [OF d] by simp
  then have "map param (map snd d) = keys d"
    by (auto simp: keys_def)
  also have "\<dots> = first_occ (map year vs)"
    using param_salary_loop_keys [OF d] by (simp add: keys_def)
  finally have o: "map param (map snd d) = first_occ (map year vs)" .
  have "\<exists>sm cm. convert_from_param_salary_to_dict (map snd d) = Inr (sm, cm)
          \<and> keys sm = first_occ ns \<and> keys cm = first_occ ns"
    if ns: "map (\<lambda>v. int_of_str (year v)) vs = map Some ns"
  proof -
    have p: "\<forall>y \<in> set (map year vs). int_of_str y \<noteq> None"
    proof
      fix y assume "y \<in> set (map year vs)"
      then have "int_of_str y \<in> set (map (\<lambda>v. int_of_str (year v)) vs)" by auto
      with ns show "int_of_str y \<noteq> None" by auto
    qed
    define ks where "ks = map (\<lambda>r. the (int_of_str (param r))) (map snd d)"
    have "set (map param (map snd d)) = set (map year vs)"
      by (simp only: o set_first_occ)
    then have "param r \<in> set (map year vs)" if "r \<in> set (map snd d)" for r
      using that by (metis imageI list.set_map)
    with p have "\<forall>r \<in> set (map snd d). int_of_str (param r) \<noteq> None"
      by blast
    then have ik: "int_params (map snd d) = Inr ks"
      by (auto simp: int_params_Inr_iff ks_def)
    have lk: "length ks = length (map snd d)"
      by (simp add: ks_def)
    have "map Some ks = map int_of_str (map param (map snd d))"
      using ik by (simp add: int_params_Inr_iff comp_def)
    also have "\<dots> = map int_of_str (first_occ (map year vs))"
      by (simp only: o)
    finally have "first_occ (map Some ks) = first_occ (map int_of_str (map year vs))"
      by (simp only: first_occ_map_first_occ)
    also have "\<dots> = first_occ (map Some ns)"
      using ns by (simp add: comp_def)
    finally have "map Some (first_occ ks) = map Some (first_occ ns)"
      by (simp add: first_occ_map_inj)
    then have fk: "first_occ ks = first_occ ns"
      by (simp add: inj_map_eq_map)
    have "keys (dict_of_pairs (zip ks (map average (map snd d)))) = first_occ ks"
      "keys (dict_of_pairs (zip ks (map count_vacancies (map snd d)))) = first_occ ks"
      using lk by (simp_all add: keys_dict_of_pairs)
    with ik fk show ?thesis
      by (simp add: convert_from_param_salary_to_dict_def)
  qed
  with g o show ?thesis by blast
qed

text \<open>
  An example: vacancies of the years 2007, 2005, 2007 give the groups 2007 and
  2005, in this order, and mappings with the keys 2007 and 2005.
\<close>

lemma groups_in_order_of_first_appearance_example:
  "''RUR'' \<in> set known_codes \<and> ''USD'' \<in> set known_codes
   \<and> (\<exists>groups sm cm.
        convert_to_param_salary
          [\<lparr>name = ''Programmer'', salary = Salary 100 200 ''RUR'', area_name = ''Moscow'',
                   published_at = ''2007-12-03'', year = ''2007''\<rparr>,
           \<lparr>name = ''Analyst'', salary = Salary 10 20 ''USD'', area_name = ''Moscow'',
                   published_at = ''2005-03-01'', year = ''2005''\<rparr>,
           \<lparr>name = ''Tester'', salary = Salary 300 500 ''RUR'', area_name = ''Moscow'',
                   published_at = ''2007-01-01'', year = ''2007''\<rparr>] = Inr groups
        \<and> map param groups = [''2007'', ''2005'']
        \<and> convert_from_param_salary_to_dict groups = Inr (sm, cm)
        \<and> keys sm = [2007, 2005] \<and> keys cm = [2007, 2005])"
proof -
  let ?vs = "[\<lparr>name = ''Programmer'', salary = Salary 100 200 ''RUR'', area_name = ''Moscow'',
                   published_at = ''2007-12-03'', year = ''2007''\<rparr>,
           \<lparr>name = ''Analyst'', salary = Salary 10 20 ''USD'', area_name = ''Moscow'',
                   published_at = ''2005-03-01'', year = ''2005''\<rparr>,
           \<lparr>name = ''Tester'', salary = Salary 300 500 ''RUR'', area_name = ''Moscow'',
                   published_at = ''2007-01-01'', year = ''2007''\<rparr>]"
  have h1: "\<forall>v \<in> set ?vs. salary_currency (salary v) \<in> set known_codes"
    by (simp add: Salary_def known_codes_def)
  have h2: "map (\<lambda>v. int_of_str (year v)) ?vs = map Some [2007, 2005, 2007]"
    by code_simp
  have f1: "first_occ (map year ?vs) = [''2007'', ''2005'']"
    by code_simp
  have f2: "first_occ [2007, 2005, 2007 :: int] = [2007, 2005]"
    by code_simp
  from groups_in_order_of_first_appearance [OF h1, of "[2007, 2005, 2007]"]
  obtain groups where g: "convert_to_param_salary ?vs = Inr groups"
    and o: "map param groups = first_occ (map year ?vs)"
    and k: "map (\<lambda>v. int_of_str (year v)) ?vs = map Some [2007, 2005, 2007] \<longrightarrow>
       (\<exists>sm cm. convert_from_param_salary_to_dict groups = Inr (sm, cm)
          \<and> keys sm = first_occ [2007, 2005, 2007] \<and> keys cm = first_occ [2007, 2005, 2007])"
    by blast
  from k h2 obtain sm cm where c: "convert_from_param_salary_to_dict groups = Inr (sm, cm)"
    and ks: "keys sm = first_occ [2007, 2005, 2007]" and kc: "keys cm = first_occ [2007, 2005, 2007]"
    by blast
  have o': "map param groups = [''2007'', ''2005'']"
    using o by (simp only: f1)
  have ks': "keys sm = [2007, 2005]" and kc': "keys cm = [2007, 2005]"
    using ks kc by (simp_all only: f2)
  have "\<exists>groups sm cm. convert_to_param_salary ?vs = Inr groups
        \<and> map param groups = [''2007'', ''2005'']
        \<and> convert_from_param_salary_to_dict groups = Inr (sm, cm)
        \<and> keys sm = [2007, 2005] \<and> keys cm = [2007, 2005]"
    by (intro exI [of _ groups] exI [of _ sm] exI [of _ cm] conjI g o' c ks' kc')
  moreover have "''RUR'' \<in> set known_codes" "''USD'' \<in> set known_codes"
    by (simp_all add: known_codes_def)
  ultimately show ?thesis by (intro conjI)
qed

subsection \<open>The plain mappings\<close>

lemma map_of_rev_last:
  assumes "i < length ps" and "\<forall>j. i < j \<and> j < length ps \<longrightarrow> fst (ps ! j) \<noteq> fst (ps ! i)"
  shows "map_of (rev ps) (fst (ps ! i)) = Some (snd (ps ! i))"
  using assms
proof (induction ps rule: rev_induct)
  case Nil
  then show ?case by simp
next
  case (snoc q qs)
  show ?case
  proof (cases "i = length qs")
    case True
    then show ?thesis by simp
  next
    case False
    with snoc.prems(1) have i: "i < length qs" by simp
    from snoc.prems(2) [rule_format, of "length qs"] i
    have ne: "fst q \<noteq> fst (qs ! i)" by (simp add: nth_append)
    have "\<forall>j. i < j \<and> j < length qs \<longrightarrow> fst (qs ! j) \<noteq> fst (qs ! i)"
    proof (intro allI impI)
      fix j assume j: "i < j \<and> j < length qs"
      with snoc.prems(2) [rule_format, of j] i show "fst (qs ! j) \<noteq> fst (qs ! i)"
        by (simp add: nth_append)
    qed
    with i have "map_of (rev qs) (fst (qs ! i)) = Some (snd (qs ! i))"
      by (rule snoc.IH)
    with i ne show ?thesis by (simp add: nth_append)
  qed
qed

lemma map_of_dict_of_pairs_last:
  assumes "i < length ks" and "length vs = length ks"
    and "\<forall>j. i < j \<and> j < length ks \<longrightarrow> ks ! j \<noteq> ks ! i"
  shows "map_of (dict_of_pairs (zip ks vs)) (ks ! i) = Some (vs ! i)"
proof -
  have "map_of (rev (zip ks vs)) (fst (zip ks vs ! i)) = Some (snd (zip ks vs ! i))"
    using assms by (intro map_of_rev_last) auto
  with assms(1,2) show ?thesis
    by (simp add: dict_of_pairs_def map_of_dict_update)
qed

text \<open>
  C6, as the code has it. When every year reads as an integer the conversion returns.
  For the last accumulator of a year, the salary mapping holds 0 at that year when the
  count is 0 and otherwise the quotient of sum and count truncated towards zero by
  \<^verbatim>\<open>int\<close>; the count mapping holds the count. For a sum that is not negative the truncated
  quotient is the floor of the quotient.
\<close>

theorem plain_mappings_truncate:
  "((\<forall>r \<in> set ps. int_of_str (param r) \<noteq> None) \<longrightarrow>
      (\<exists>sm cm. convert_from_param_salary_to_dict ps = Inr (sm, cm)))
   \<and> (convert_from_param_salary_to_dict ps = Inr (sm, cm) \<longrightarrow> i < length ps \<longrightarrow>
        (\<forall>j. i < j \<and> j < length ps \<longrightarrow>
           int_of_str (param (ps ! j)) \<noteq> int_of_str (param (ps ! i))) \<longrightarrow>
        (\<exists>k. int_of_str (param (ps ! i)) = Some k
           \<and> map_of sm k =
               Some (if count_vacancies (ps ! i) = 0 then 0
                     else py_int (ys_salary (ps ! i) / of_int (count_vacancies (ps ! i))))
           \<and> map_of cm k = Some (count_vacancies (ps ! i))
           \<and> (0 \<le> ys_salary (ps ! i) \<and> 0 < count_vacancies (ps ! i) \<longrightarrow>
                map_of sm k = Some \<lfloor>ys_salary (ps ! i) / of_int (count_vacancies (ps ! i))\<rfloor>)))"
proof (intro conjI impI)
  assume "\<forall>r \<in> set ps. int_of_str (param r) \<noteq> None"
  then have "int_params ps = Inr (map (\<lambda>r. the (int_of_str (param r))) ps)"
    by (auto simp: int_params_Inr_iff)
  then show "\<exists>sm cm. convert_from_param_salary_to_dict ps = Inr (sm, cm)"
    by (simp add: convert_from_param_salary_to_dict_def)
next
  assume res: "convert_from_param_salary_to_dict ps = Inr (sm, cm)" and i: "i < length ps"
    and last: "\<forall>j. i < j \<and> j < length ps \<longrightarrow>
           int_of_str (param (ps ! j)) \<noteq> int_of_str (param (ps ! i))"
  from res obtain ks where ks: "int_params ps = Inr ks"
    and sm: "sm = dict_of_pairs (zip ks (map average ps))"
    and cm: "cm = dict_of_pairs (zip ks (map count_vacancies ps))"
    by (auto simp: convert_from_param_salary_to_dict_def and_then_Inr_iff)
  from ks have len: "length ks = length ps" by (rule int_params_length)
  from ks have m: "map (\<lambda>r. int_of_str (param r)) ps = map Some ks"
    by (simp add: int_params_Inr_iff)
  have nth: "int_of_str (param (ps ! j)) = Some (ks ! j)" if "j < length ps" for j
    using that len nth_map [of j ps "\<lambda>r. int_of_str (param r)"] nth_map [of j ks Some]
    by (simp add: m)
  have d: "\<forall>j. i < j \<and> j < length ks \<longrightarrow> ks ! j \<noteq> ks ! i"
    using last nth i len by auto
  have a: "map_of sm (ks ! i) = Some (average (ps ! i))"
    using map_of_dict_of_pairs_last [of i ks "map average ps"] i len d by (simp add: sm)
  have c: "map_of cm (ks ! i) = Some (count_vacancies (ps ! i))"
    using map_of_dict_of_pairs_last [of i ks "map count_vacancies ps"] i len d by (simp add: cm)
  have f: "average (ps ! i) = \<lfloor>ys_salary (ps ! i) / of_int (count_vacancies (ps ! i))\<rfloor>"
    if "0 \<le> ys_salary (ps ! i) \<and> 0 < count_vacancies (ps ! i)"
    using that by (simp add: average_def py_int_def)
  from a c f nth [OF i]
  show "\<exists>k. int_of_str (param (ps ! i)) = Some k
           \<and> map_of sm k =
               Some (if count_vacancies (ps ! i) = 0 then 0
                     else py_int (ys_salary (ps ! i) / of_int (count_vacancies (ps ! i))))
           \<and> map_of cm k = Some (count_vacancies (ps ! i))
           \<and> (0 \<le> ys_salary (ps ! i) \<and> 0 < count_vacancies (ps ! i) \<longrightarrow>
                map_of sm k = Some \<lfloor>ys_salary (ps ! i) / of_int (count_vacancies (ps ! i))\<rfloor>)"
    by (auto simp: average_def)
qed

text \<open>
  A run of C6's theorem: the sum 150.5 over 2 vacancies gives 75, an accumulator with the
  count 0 gives 0.
\<close>

theorem plain_mappings_truncate_witness:
  "int_of_str (param \<lparr>param = ''2007'', ys_salary = 301 / 2, count_vacancies = 2\<rparr>) \<noteq> None
   \<and> int_of_str (param \<lparr>param = ''2008'', ys_salary = 0, count_vacancies = 0\<rparr>) \<noteq> None
   \<and> convert_from_param_salary_to_dict
        [\<lparr>param = ''2007'', ys_salary = 301 / 2, count_vacancies = 2\<rparr>,
         \<lparr>param = ''2008'', ys_salary = 0, count_vacancies = 0\<rparr>]
      = Inr ([(2007, 75), (2008, 0)], [(2007, 2), (2008, 0)])
   \<and> map_of [(2007 :: int, 75 :: int), (2008, 0)] 2007 = Some \<lfloor>(301 / 2 :: rat) / of_int 2\<rfloor>"
proof -
  let ?ps = "[\<lparr>param = ''2007'', ys_salary = 301 / 2, count_vacancies = 2\<rparr>,
         \<lparr>param = ''2008'', ys_salary = 0, count_vacancies = 0\<rparr>]"
  have i1: "int_of_str ''2007'' = Some 2007" and i2: "int_of_str ''2008'' = Some 2008"
    by code_simp+
  have h1: "\<forall>r \<in> set ?ps. int_of_str (param r) \<noteq> None"
    by (simp add: i1 i2)
  have h2: "convert_from_param_salary_to_dict ?ps
      = Inr ([(2007, 75), (2008, 0)], [(2007, 2), (2008, 0)])"
    by code_simp
  have h3: "(0 :: nat) < length ?ps" by simp
  have h4: "\<forall>j. 0 < j \<and> j < length ?ps \<longrightarrow>
           int_of_str (param (?ps ! j)) \<noteq> int_of_str (param (?ps ! 0))"
    by (auto simp: i1 i2 less_Suc_eq)
  from plain_mappings_truncate [of ?ps "[(2007, 75), (2008, 0)]" "[(2007, 2), (2008, 0)]" 0] h1 h2 h3 h4
  have "map_of [(2007 :: int, 75 :: int), (2008, 0)] 2007 = Some \<lfloor>(301 / 2 :: rat) / of_int 2\<rfloor>"
    by (simp add: i1)
  with h1 h2 show ?thesis by simp
qed

text \<open>
  C6 as stated, with the floor, fails for a negative sum: for the sum -5 and the count 2
  the code stores -2, the floor of the quotient is -3.
\<close>

theorem average_not_floor_for_negative_sum:
  "convert_from_param_salary_to_dict [\<lparr>param = ''2007'', ys_salary = - 5, count_vacancies = 2\<rparr>]
     = Inr ([(2007, - 2)], [(2007, 2)])
   \<and> \<lfloor>(- 5 :: rat) / of_int 2\<rfloor> = - 3"
  by code_simp

subsection \<open>Filling the missing years\<close>

lemma YearSalary_zero:
  "YearSalary y (Salary 0 0 ''RUR'') = Inr \<lparr>param = y, ys_salary = 0, count_vacancies = 1\<rparr>"
  by (simp add: YearSalary_cases Salary_def currency_to_rub_def py_int_def)

text \<open>
  Where the function does what C4 says: when the reference years read as consecutive
  integers in ascending order, and the years of the selection are reference years in the
  order of the reference, the function returns the selection laid along the reference
  years, with the entry of salary 0 and count 0 for every missing year.
\<close>

lemma list_insert_at_length: "list_insert (xs @ ys) (int (length xs)) z = xs @ z # ys"
  by (simp add: list_insert_def Let_def)

lemma list_index_at_length: "list_index (Suc (length xs + n)) (int (length xs)) = Inr (length xs)"
  by (simp add: list_index_def Let_def)

lemma head_of_filter:
  assumes "map f (p # ps) = filter P ys"
  shows "P (f p)"
proof -
  have "f p \<in> set (map f (p # ps))" by simp
  then have "f p \<in> set (filter P ys)" by (simp only: assms)
  then show ?thesis by simp
qed

lemma add_year_in_order:
  assumes "int_of_str y = Some (b + int (length fin))"
    and "int_of_str y0 = Some b"
  shows "add_year (y0 # others) (fin @ todo) y = Inr (fin @ zero_entry y # todo)"
  using assms
  by (simp add: add_year_def YearSalary_zero Let_def list_insert_at_length
      list_index_at_length zero_entry_def)

lemma add_years_loop_in_order:
  assumes "\<forall>i < length (pre @ rest). int_of_str ((pre @ rest) ! i) = Some (b + int i)"
    and "length fin = length pre"
    and "map param todo = filter (\<lambda>y. y \<in> set S) rest"
  shows "add_years_loop (pre @ rest) S (fin @ todo) rest = Inr (fin @ filled rest todo)"
  using assms
proof (induction rest arbitrary: pre fin todo)
  case Nil
  then show ?case by simp
next
  case (Cons y rest)
  let ?years = "pre @ y # rest"
  from Cons.prems(1) have ints: "\<forall>i < length ((pre @ [y]) @ rest).
      int_of_str (((pre @ [y]) @ rest) ! i) = Some (b + int i)"
    by simp
  from Cons.prems(1) [rule_format, of "length pre"]
  have y: "int_of_str y = Some (b + int (length pre))" by simp
  obtain y0 others where years: "?years = y0 # others"
    by (cases ?years) simp_all
  from Cons.prems(1) [rule_format, of 0] years have y0: "int_of_str y0 = Some b"
    by simp
  show ?case
  proof (cases "y \<in> set S")
    case True
    with Cons.prems(3) obtain p todo' where todo: "todo = p # todo'"
      and p: "param p = y" and rest: "map param todo' = filter (\<lambda>y. y \<in> set S) rest"
      by (cases todo) auto
    have "add_years_loop ((pre @ [y]) @ rest) S ((fin @ [p]) @ todo') rest
          = Inr ((fin @ [p]) @ filled rest todo')"
      using ints Cons.prems(2) rest by (intro Cons.IH) simp_all
    with True todo p show ?thesis by simp
  next
    case False
    have hd: "filled (y # rest) todo = zero_entry y # filled rest todo"
    proof (cases todo)
      case Nil
      then show ?thesis by simp
    next
      case (Cons p todo')
      with Cons.prems(3) have "param p \<in> set S"
        using head_of_filter [of param p todo' "\<lambda>y. y \<in> set S" "y # rest"] by simp
      with False Cons show ?thesis by auto
    qed
    have step: "add_year ?years (fin @ todo) y = Inr (fin @ zero_entry y # todo)"
      unfolding years using y y0 Cons.prems(2) by (intro add_year_in_order) simp_all
    have "add_years_loop ((pre @ [y]) @ rest) S ((fin @ [zero_entry y]) @ todo) rest
          = Inr ((fin @ [zero_entry y]) @ filled rest todo)"
      using ints Cons.prems(2,3) False by (intro Cons.IH) simp_all
    with False step hd show ?thesis by simp
  qed
qed

lemma map_param_filled:
  "map param ps = filter (\<lambda>y. y \<in> set S) ys \<Longrightarrow> map param (filled ys ps) = ys"
proof (induction ys ps rule: filled.induct)
  case (1 ps)
  then show ?case by simp
next
  case (2 y ys)
  then show ?case by (simp add: zero_entry_def split: if_splits)
next
  case (3 y ys p ps)
  show ?case
  proof (cases "y \<in> set S")
    case True
    with 3 show ?thesis by simp
  next
    case False
    from "3.prems" have "param p \<in> set S"
      using head_of_filter [of param p ps "\<lambda>y. y \<in> set S" "y # ys"] by simp
    with False have "param p \<noteq> y" by auto
    with 3 False show ?thesis by (simp add: zero_entry_def)
  qed
qed

lemma add_missing_years_in_order:
  assumes "\<forall>i < length year_salary. int_of_str (param (year_salary ! i)) = Some (b + int i)"
    and "map param ps = filter (\<lambda>y. y \<in> set (map param ps)) (map param year_salary)"
  shows "add_missing_years ps year_salary = Inr (filled (map param year_salary) ps)"
    and "map param (filled (map param year_salary) ps) = map param year_salary"
proof -
  from assms(1)
  have "\<forall>i < length ([] @ map param year_salary).
          int_of_str (([] @ map param year_salary) ! i) = Some (b + int i)"
    by simp
  from add_years_loop_in_order [OF this, of "[]" ps "map param ps"] assms(2)
  show "add_missing_years ps year_salary = Inr (filled (map param year_salary) ps)"
    by (simp add: add_missing_years_def Let_def)
  from assms(2) show "map param (filled (map param year_salary) ps) = map param year_salary"
    by (rule map_param_filled)
qed

text \<open>
  The example of C4: for the years 2005, 2006, 2007 and the selection 2005, 2007 the year
  2006 is added between them, with the salary 0 and the count 0.
\<close>

lemma add_missing_years_example:
  "add_missing_years
     [\<lparr>param = ''2005'', ys_salary = 150, count_vacancies = 1\<rparr>,
      \<lparr>param = ''2007'', ys_salary = 900, count_vacancies = 2\<rparr>]
     [\<lparr>param = ''2005'', ys_salary = 300, count_vacancies = 2\<rparr>,
      \<lparr>param = ''2006'', ys_salary = 400, count_vacancies = 1\<rparr>,
      \<lparr>param = ''2007'', ys_salary = 900, count_vacancies = 2\<rparr>]
   = Inr [\<lparr>param = ''2005'', ys_salary = 150, count_vacancies = 1\<rparr>,
          \<lparr>param = ''2006'', ys_salary = 0, count_vacancies = 0\<rparr>,
          \<lparr>param = ''2007'', ys_salary = 900, count_vacancies = 2\<rparr>]"
  by code_simp

text \<open>
  C4 at the years 2005 and 2010 with a selection that has 2005 only: the entry for 2010
  is appended at index 1, the count is then assigned at index 5, and the function raises
  \<^verbatim>\<open>IndexError\<close> instead of returning a sequence that holds 2010.
\<close>

theorem add_missing_years_gap_raises:
  "add_missing_years
     [\<lparr>param = ''2005'', ys_salary = 150, count_vacancies = 1\<rparr>]
     [\<lparr>param = ''2005'', ys_salary = 150, count_vacancies = 1\<rparr>,
      \<lparr>param = ''2010'', ys_salary = 400, count_vacancies = 1\<rparr>]
   = Inl IndexError"
  by code_simp

text \<open>
  With the years 2007, 2006 in this order the index is -1: the entry for 2006 goes in
  front of the last entry and the count 0 is assigned to the last entry, that of 2007.
\<close>

lemma add_missing_years_descending:
  "add_missing_years
     [\<lparr>param = ''2007'', ys_salary = 150, count_vacancies = 1\<rparr>]
     [\<lparr>param = ''2007'', ys_salary = 150, count_vacancies = 1\<rparr>,
      \<lparr>param = ''2006'', ys_salary = 400, count_vacancies = 1\<rparr>]
   = Inr [\<lparr>param = ''2006'', ys_salary = 0, count_vacancies = 1\<rparr>,
          \<lparr>param = ''2007'', ys_salary = 150, count_vacancies = 0\<rparr>]"
  by code_simp

text \<open>
  The step for a missing year, case by case, with \<open>a - b\<close> the computed index. Beyond
  the length, and below the negated length minus one, the step raises \<^verbatim>\<open>IndexError\<close>.
  From 0 to the length the entry of salary 0 and count 0 stands at the index. For a
  negative index down to the negated length the new entry is inserted that far from the
  end and keeps the count 1, and the count of the entry after it is set to 0.
\<close>

lemma add_year_unfold:
  assumes "int_of_str y = Some a" and "int_of_str y0 = Some b"
  shows "add_year (y0 # rest) ps y =
     and_then (list_index (Suc (length ps)) (a - b)) (\<lambda>j.
       Inr ((list_insert ps (a - b) \<lparr>param = y, ys_salary = 0, count_vacancies = 1\<rparr>)
              [j := (list_insert ps (a - b) \<lparr>param = y, ys_salary = 0, count_vacancies = 1\<rparr> ! j)
                      \<lparr>count_vacancies := 0\<rparr>]))"
  using assms by (simp add: add_year_def YearSalary_zero Let_def list_insert_def)

lemma add_year_out_of_range:
  assumes "int_of_str y = Some a" and "int_of_str y0 = Some b"
    and "int (length ps) < a - b \<or> a - b < - int (length ps) - 1"
  shows "add_year (y0 # rest) ps y = Inl IndexError"
  using assms(3) by (auto simp: add_year_unfold [OF assms(1,2)] list_index_def Let_def)

lemma add_year_in_range:
  assumes "int_of_str y = Some a" and "int_of_str y0 = Some b"
    and "0 \<le> a - b" and "a - b \<le> int (length ps)"
  shows "add_year (y0 # rest) ps y
         = Inr (take (nat (a - b)) ps @ zero_entry y # drop (nat (a - b)) ps)"
proof -
  have i: "list_index (Suc (length ps)) (a - b) = Inr (nat (a - b))"
    using assms(3,4) by (simp add: list_index_def Let_def)
  have l: "list_insert ps (a - b) z = take (nat (a - b)) ps @ z # drop (nat (a - b)) ps" for z
    using assms(3,4) by (simp add: list_insert_def Let_def min_def)
  have n: "length (take (nat (a - b)) ps) = nat (a - b)"
    using assms(3,4) by simp
  show ?thesis
    by (simp add: add_year_unfold [OF assms(1,2)] i l zero_entry_def
        nth_append list_update_append n del: length_take)
qed

lemma add_year_negative:
  assumes "int_of_str y = Some a" and "int_of_str y0 = Some b"
    and "a - b < 0" and "- int (length ps) \<le> a - b"
  shows "add_year (y0 # rest) ps y
         = Inr (take (nat (int (length ps) + (a - b))) ps
                @ \<lparr>param = y, ys_salary = 0, count_vacancies = 1\<rparr>
                # (drop (nat (int (length ps) + (a - b))) ps)
                    [0 := (ps ! nat (int (length ps) + (a - b)))\<lparr>count_vacancies := 0\<rparr>])"
proof -
  define k where "k = nat (int (length ps) + (a - b))"
  have k: "k < length ps" "int k = int (length ps) + (a - b)"
    using assms(3,4) by (simp_all add: k_def)
  have j: "int (Suc (length ps)) + (a - b) = int (Suc k)"
    using k(2) by simp
  have i: "list_index (Suc (length ps)) (a - b) = Inr (Suc k)"
    unfolding list_index_def Let_def using assms(3) k(1) by (simp only: j if_True) simp
  have l: "list_insert ps (a - b) z = take k ps @ z # drop k ps" for z
    using assms(3,4) by (simp add: list_insert_def Let_def max_def k_def)
  have n: "length (take k ps) = k"
    using k by simp
  have d: "drop k ps ! 0 = ps ! k"
    using k by simp
  show ?thesis
    unfolding k_def [symmetric]
    by (simp add: add_year_unfold [OF assms(1,2)] i l nth_append list_update_append n d
        del: length_take)
qed

lemma add_year_front:
  assumes "int_of_str y = Some a" and "int_of_str y0 = Some b"
    and "a - b = - int (length ps) - 1"
  shows "add_year (y0 # rest) ps y = Inr (zero_entry y # ps)"
proof -
  have i: "list_index (Suc (length ps)) (a - b) = Inr 0"
    using assms(3) by (simp add: list_index_def Let_def)
  have l: "list_insert ps (a - b) z = z # ps" for z
    using assms(3) by (simp add: list_insert_def Let_def)
  show ?thesis
    by (simp add: add_year_unfold [OF assms(1,2)] i l zero_entry_def)
qed

text \<open>
  C5 at the years 2005, 2008 and a selection that has 2005 only. The index is 3 and
  exceeds the length 1: the new entry lands at index 1, not at index 3, and the
  assignment of the count at index 3 raises \<^verbatim>\<open>IndexError\<close>, so the function does not
  return the sequence with the year added.
\<close>

theorem insertion_beyond_length_appends:
  "list_insert [\<lparr>param = ''2005'', ys_salary = 150, count_vacancies = 1\<rparr>] 3
      \<lparr>param = ''2008'', ys_salary = 0, count_vacancies = 1\<rparr>
   = [\<lparr>param = ''2005'', ys_salary = 150, count_vacancies = 1\<rparr>,
      \<lparr>param = ''2008'', ys_salary = 0, count_vacancies = 1\<rparr>]
   \<and> add_year [''2005'', ''2008''] [\<lparr>param = ''2005'', ys_salary = 150, count_vacancies = 1\<rparr>] ''2008''
     = Inl IndexError
   \<and> add_missing_years
        [\<lparr>param = ''2005'', ys_salary = 150, count_vacancies = 1\<rparr>]
        [\<lparr>param = ''2005'', ys_salary = 150, count_vacancies = 1\<rparr>,
         \<lparr>param = ''2008'', ys_salary = 90, count_vacancies = 1\<rparr>]
     = Inl IndexError"
  by code_simp

subsection \<open>One file\<close>

text \<open>
  The all-records mappings that \<^verbatim>\<open>process_data\<close> returns have their keys in the order
  of first appearance of the years.
\<close>

lemma process_data_overall_keys:
  assumes "process_data profession data = Inr (ys, yv, ps, pv)"
    and "map (\<lambda>v. int_of_str (year v)) data = map Some ns"
  shows "keys ys = first_occ ns \<and> keys yv = first_occ ns"
proof -
  from assms(1) obtain groups where g: "convert_to_param_salary data = Inr groups"
    and c: "convert_from_param_salary_to_dict groups = Inr (ys, yv)"
    by (auto simp: process_data_def Let_def and_then_Inr_iff)
  from g obtain d where d: "param_salary_loop [] data = Inr d" and gd: "groups = map snd d"
    by (auto simp: convert_to_param_salary_def and_then_Inr_iff)
  have "\<forall>(k, r) \<in> set d. param r = k"
    using param_salary_loop_params [OF d] by simp
  then have "map param groups = keys d"
    by (auto simp: keys_def gd)
  also have "\<dots> = first_occ (map year data)"
    using param_salary_loop_keys [OF d] by (simp add: keys_def)
  finally have o: "map param groups = first_occ (map year data)" .
  from c obtain ks where ik: "int_params groups = Inr ks"
    and ys: "ys = dict_of_pairs (zip ks (map average groups))"
    and yv: "yv = dict_of_pairs (zip ks (map count_vacancies groups))"
    by (auto simp: convert_from_param_salary_to_dict_def and_then_Inr_iff)
  have lk: "length ks = length groups"
    using ik by (rule int_params_length)
  have "map Some ks = map int_of_str (map param groups)"
    using ik by (simp add: int_params_Inr_iff comp_def)
  also have "\<dots> = map int_of_str (first_occ (map year data))"
    by (simp only: o)
  finally have "first_occ (map Some ks) = first_occ (map int_of_str (map year data))"
    by (simp only: first_occ_map_first_occ)
  also have "\<dots> = first_occ (map Some ns)"
    using assms(2) by (simp add: comp_def)
  finally have "map Some (first_occ ks) = map Some (first_occ ns)"
    by (simp add: first_occ_map_inj)
  then have fk: "first_occ ks = first_occ ns"
    by (simp add: inj_map_eq_map)
  have "keys ys = first_occ ks" "keys yv = first_occ ks"
    using lk by (simp_all add: ys yv keys_dict_of_pairs)
  with fk show ?thesis by simp
qed

text \<open>
  C9 at a file whose first row is of 2007 and names the profession and whose second row
  is of 2006. The all-records mappings have the keys 2007, 2006, the order of first
  appearance. The profession mappings have the keys 2006, 2007: the entry for 2006 is
  inserted at the index -1, in front of the entry of 2007, and the count of 2007 is set
  to 0.
\<close>

theorem profession_mapping_order_differs:
  "process_vacancies dec_float
     [''name'', ''salary_from'', ''salary_to'', ''salary_currency'', ''area_name'', ''published_at'']
     [[''Programmer'', ''100'', ''200'', ''RUR'', ''Moscow'', ''2007-03-01T10:00:00+0300''],
      [''Analyst'', ''300'', ''500'', ''RUR'', ''Moscow'', ''2006-03-01T10:00:00+0300'']]
   = Inr [\<lparr>name = ''Programmer'', salary = Salary 100 200 ''RUR'', area_name = ''Moscow'',
            published_at = ''2007-03-01T10:00:00+0300'', year = ''2007''\<rparr>,
          \<lparr>name = ''Analyst'', salary = Salary 300 500 ''RUR'', area_name = ''Moscow'',
            published_at = ''2006-03-01T10:00:00+0300'', year = ''2006''\<rparr>]
   \<and> process_data ''Programmer''
        [\<lparr>name = ''Programmer'', salary = Salary 100 200 ''RUR'', area_name = ''Moscow'',
            published_at = ''2007-03-01T10:00:00+0300'', year = ''2007''\<rparr>,
         \<lparr>name = ''Analyst'', salary = Salary 300 500 ''RUR'', area_name = ''Moscow'',
            published_at = ''2006-03-01T10:00:00+0300'', year = ''2006''\<rparr>]
       = Inr ([(2007, 150), (2006, 400)], [(2007, 1), (2006, 1)],
              [(2006, 0), (2007, 0)], [(2006, 1), (2007, 0)])
   \<and> first_occ [2007, 2006 :: int] = [2007, 2006]"
  by code_simp

text \<open>
  C10. Two well-formed rows with known currencies, of the years 2005 and 2010, of which
  only the first names the profession: the rows load, the grouping returns the years 2005
  and 2010, and \<^verbatim>\<open>process_data\<close> raises \<^verbatim>\<open>IndexError\<close>.
\<close>

theorem process_data_IndexError_on_year_gap:
  "process_vacancies dec_float
     [''name'', ''salary_from'', ''salary_to'', ''salary_currency'', ''area_name'', ''published_at'']
     [[''Programmer'', ''100'', ''200'', ''RUR'', ''Moscow'', ''2005-03-01T10:00:00+0300''],
      [''Analyst'', ''300'', ''500'', ''RUR'', ''Moscow'', ''2010-03-01T10:00:00+0300'']]
   = Inr [\<lparr>name = ''Programmer'', salary = Salary 100 200 ''RUR'', area_name = ''Moscow'',
            published_at = ''2005-03-01T10:00:00+0300'', year = ''2005''\<rparr>,
          \<lparr>name = ''Analyst'', salary = Salary 300 500 ''RUR'', area_name = ''Moscow'',
            published_at = ''2010-03-01T10:00:00+0300'', year = ''2010''\<rparr>]
   \<and> convert_to_param_salary
        [\<lparr>name = ''Programmer'', salary = Salary 100 200 ''RUR'', area_name = ''Moscow'',
            published_at = ''2005-03-01T10:00:00+0300'', year = ''2005''\<rparr>,
         \<lparr>name = ''Analyst'', salary = Salary 300 500 ''RUR'', area_name = ''Moscow'',
            published_at = ''2010-03-01T10:00:00+0300'', year = ''2010''\<rparr>]
       = Inr [\<lparr>param = ''2005'', ys_salary = 150, count_vacancies = 1\<rparr>,
              \<lparr>param = ''2010'', ys_salary = 400, count_vacancies = 1\<rparr>]
   \<and> process_data ''Programmer''
        [\<lparr>name = ''Programmer'', salary = Salary 100 200 ''RUR'', area_name = ''Moscow'',
            published_at = ''2005-03-01T10:00:00+0300'', year = ''2005''\<rparr>,
         \<lparr>name = ''Analyst'', salary = Salary 300 500 ''RUR'', area_name = ''Moscow'',
            published_at = ''2010-03-01T10:00:00+0300'', year = ''2010''\<rparr>]
       = Inl IndexError"
  by code_simp

subsection \<open>Merging the results of the files\<close>

text \<open>
  C8. The results of two files are merged by storing their entries, the first file's and
  then the second's: in each of the four mappings the keys are the union of the two key
  sets, a year of the second file has the second file's value, and any other year keeps
  the value of the first file.
\<close>

theorem merge_last_writer_wins:
  assumes "distinct (keys ys1)" "distinct (keys yv1)" "distinct (keys ps1)" "distinct (keys pv1)"
    and "distinct (keys ys2)" "distinct (keys yv2)" "distinct (keys ps2)" "distinct (keys pv2)"
    and "merge_results [(ys1, yv1, ps1, pv1), (ys2, yv2, ps2, pv2)] = (ys, yv, ps, pv)"
  shows "merged_from ys ys1 ys2 \<and> merged_from yv yv1 yv2
         \<and> merged_from ps ps1 ps2 \<and> merged_from pv pv1 pv2"
  using assms
  by (auto simp: merge_results_two dict_update_empty_distinct intro: merged_from_dict_update)

text \<open>
  A run of C8's theorem: both files hold the year 2007 and the second also 2008; the
  merged mappings hold both years, with the second file's values for 2007.
\<close>

theorem merge_last_writer_wins_witness:
  "distinct (keys [(2007 :: int, 100 :: int)]) \<and> distinct (keys [(2007 :: int, 3 :: int)])
   \<and> distinct (keys [(2007 :: int, 200 :: int), (2008, 50)])
   \<and> distinct (keys [(2007 :: int, 5 :: int), (2008, 1)])
   \<and> merge_results
        [([(2007, 100)], [(2007, 3)], [(2007, 100)], [(2007, 3)]),
         ([(2007, 200), (2008, 50)], [(2007, 5), (2008, 1)],
          [(2007, 200), (2008, 50)], [(2007, 5), (2008, 1)])]
      = ([(2007, 200), (2008, 50)], [(2007, 5), (2008, 1)],
         [(2007, 200), (2008, 50)], [(2007, 5), (2008, 1)])
   \<and> merged_from [(2007 :: int, 200 :: int), (2008, 50)] [(2007, 100)] [(2007, 200), (2008, 50)]
   \<and> merged_from [(2007 :: int, 5 :: int), (2008, 1)] [(2007, 3)] [(2007, 5), (2008, 1)]"
proof -
  have d: "distinct (keys [(2007 :: int, 100 :: int)])" "distinct (keys [(2007 :: int, 3 :: int)])"
    "distinct (keys [(2007 :: int, 200 :: int), (2008, 50)])"
    "distinct (keys [(2007 :: int, 5 :: int), (2008, 1)])"
    by (simp_all add: keys_def)
  have e: "merge_results
        [([(2007, 100)], [(2007, 3)], [(2007, 100)], [(2007, 3)]),
         ([(2007, 200), (2008, 50)], [(2007, 5), (2008, 1)],
          [(2007, 200), (2008, 50)], [(2007, 5), (2008, 1)])]
      = ([(2007, 200), (2008, 50)], [(2007, 5), (2008, 1)],
         [(2007, 200), (2008, 50)], [(2007, 5), (2008, 1)])"
    by code_simp
  from merge_last_writer_wins [OF d(1) d(2) d(1) d(2) d(3) d(4) d(3) d(4) e] d e
  show ?thesis by blast
qed

end
